theory Spec2Isabelle
  imports Main "HOL-Library.AList" "HOL-Library.Sublist" "HOL-Library.Char_ord"
    "HOL-Library.List_Lexorder"
begin

section \<open>Pharos: the download, install and indexing pipeline\<close>

text \<open>
  A shallow embedding of \<^verbatim>\<open>autoinstall.py\<close> and \<^verbatim>\<open>download.py\<close>.
  Python exceptions are values of \<open>exn\<close>, a function that can raise returns
  \<open>exn + 'a\<close> next to the state it leaves behind, and the file system, the
  standard output, the progress queue and the URLs requested over the network are
  explicit fields of a \<open>world\<close>.
\<close>

subsection \<open>Exceptions\<close>

text \<open>
  The exception classes the two modules can meet. \<open>IOFault\<close> stands for an
  \<^verbatim>\<open>OSError\<close> that the state of the model does not determine (disk full, permission
  denied); it only arises where a function takes an explicit fault as input.
\<close>

datatype exn =
    ParseError
  | BadZipFile
  | JSONDecodeError
  | FileNotFoundError
  | IsADirectoryError
  | NotADirectoryError
  | FileExistsError
  | IOFault
  | URLError
  | AttributeError
  | TypeError
  | KeyError
  | ValueError

text \<open>\<^verbatim>\<open>isinstance(e, OSError)\<close>; every \<open>exn\<close> is an \<^verbatim>\<open>Exception\<close>.\<close>

fun is_OSError :: "exn \<Rightarrow> bool" where
  "is_OSError FileNotFoundError = True"
| "is_OSError IsADirectoryError = True"
| "is_OSError NotADirectoryError = True"
| "is_OSError FileExistsError = True"
| "is_OSError IOFault = True"
| "is_OSError URLError = True"
| "is_OSError _ = False"

subsection \<open>Strings\<close>

text \<open>\<^verbatim>\<open>str.lower()\<close> on ASCII, and \<^verbatim>\<open>str.endswith\<close>.\<close>

definition lower_char :: "char \<Rightarrow> char" where
  "lower_char c =
     (let n = (of_char c :: nat) in if 65 \<le> n \<and> n \<le> 90 then char_of (n + 32) else c)"

definition lower :: "string \<Rightarrow> string" where
  "lower s = map lower_char s"

definition endswith :: "string \<Rightarrow> string \<Rightarrow> bool" where
  "endswith s suf = suffix suf s"

subsection \<open>Documents\<close>

text \<open>
  An \<^verbatim>\<open>xml.etree.ElementTree.Element\<close>: its tag, its text (\<^verbatim>\<open>None\<close> for an empty
  element) and its children in order. Attributes and tails are never read by the code.
\<close>

datatype xml = Elem (tag: string) (text_of: "string option") (children: "xml list")

text \<open>\<^verbatim>\<open>elem.find(t)\<close>: the first direct child with that tag; \<^verbatim>\<open>elem.findall(t)\<close>: all of them.\<close>

definition find_elem :: "string \<Rightarrow> xml \<Rightarrow> xml option" where
  "find_elem t e = List.find (\<lambda>c. tag c = t) (children e)"

definition findall :: "string \<Rightarrow> xml \<Rightarrow> xml list" where
  "findall t e = filter (\<lambda>c. tag c = t) (children e)"

text \<open>A value parsed by \<^verbatim>\<open>json.load\<close>; a dict keeps its keys in insertion order.\<close>

datatype json =
    JNull
  | JBool bool
  | JInt int
  | JStr string
  | JList "json list"
  | JDict "(string \<times> json) list"

subsection \<open>The file system\<close>

text \<open>
  A file holds raw bytes, or a document the program reads back as such: what
  \<^verbatim>\<open>ET.parse\<close> or \<^verbatim>\<open>json.load\<close> makes of the file. Parsing a file of another
  kind fails. Archives are raw bytes; \<^verbatim>\<open>zipfile.ZipFile\<close> is a parameter \<open>unzip\<close> of
  the functions that open one.
\<close>

datatype content = Raw string | Xml xml | Json json

datatype node = File content | Dir

type_synonym path = "string list"

type_synonym fs = "(path \<times> node) list"

text \<open>The root \<open>[]\<close> is a directory of every file system.\<close>

definition lookup :: "fs \<Rightarrow> path \<Rightarrow> node option" where
  "lookup fs p = (if p = [] then Some Dir else map_of fs p)"

definition path_exists :: "fs \<Rightarrow> path \<Rightarrow> bool" where
  "path_exists fs p = (lookup fs p \<noteq> None)"

definition is_file :: "fs \<Rightarrow> path \<Rightarrow> bool" where
  "is_file fs p = (case lookup fs p of Some (File _) \<Rightarrow> True | _ \<Rightarrow> False)"

definition is_dir :: "fs \<Rightarrow> path \<Rightarrow> bool" where
  "is_dir fs p = (lookup fs p = Some Dir)"

text \<open>\<^verbatim>\<open>Path.name\<close> and \<^verbatim>\<open>Path.parent\<close>.\<close>

definition path_name :: "path \<Rightarrow> string" where
  "path_name p = (if p = [] then [] else last p)"

definition parent :: "path \<Rightarrow> path" where
  "parent p = butlast p"

text \<open>\<^verbatim>\<open>open(p)\<close> for reading.\<close>

definition read_file :: "fs \<Rightarrow> path \<Rightarrow> exn + content" where
  "read_file fs p =
     (case lookup fs p of
        None \<Rightarrow> Inl FileNotFoundError
      | Some Dir \<Rightarrow> Inl IsADirectoryError
      | Some (File c) \<Rightarrow> Inr c)"

text \<open>
  \<^verbatim>\<open>open(p, "w")\<close> followed by a complete write: it fails on a directory and where
  the parent is not a directory, and replaces the content otherwise.
\<close>

definition write_file :: "fs \<Rightarrow> path \<Rightarrow> content \<Rightarrow> exn + fs" where
  "write_file fs p c =
     (if is_dir fs p then Inl IsADirectoryError
      else (case lookup fs (parent p) of
              None \<Rightarrow> Inl FileNotFoundError
            | Some (File _) \<Rightarrow> Inl NotADirectoryError
            | Some Dir \<Rightarrow> Inr (AList.update p (File c) fs)))"

text \<open>
  \<^verbatim>\<open>Path.mkdir(parents=True, exist_ok=True)\<close>: every missing ancestor is created; a
  file in the way raises.
\<close>

fun mkdirs :: "fs \<Rightarrow> path \<Rightarrow> path \<Rightarrow> exn + fs" where
  "mkdirs fs pre [] = Inr fs"
| "mkdirs fs pre (c # cs) =
     (let q = pre @ [c] in
      case lookup fs q of
        Some Dir \<Rightarrow> mkdirs fs q cs
      | Some (File _) \<Rightarrow> Inl (if cs = [] then FileExistsError else NotADirectoryError)
      | None \<Rightarrow> mkdirs (AList.update q Dir fs) q cs)"

definition mkdir_p :: "fs \<Rightarrow> path \<Rightarrow> exn + fs" where
  "mkdir_p fs p = mkdirs fs [] p"

text \<open>\<^verbatim>\<open>ET.parse(p).getroot()\<close>.\<close>

definition parse_xml :: "fs \<Rightarrow> path \<Rightarrow> exn + xml" where
  "parse_xml fs p =
     (case read_file fs p of
        Inl e \<Rightarrow> Inl e
      | Inr (Xml x) \<Rightarrow> Inr x
      | Inr _ \<Rightarrow> Inl ParseError)"

subsection \<open>Output\<close>

text \<open>
  The lines the two modules print, one constructor per format string, with the values
  the format string interpolates.
\<close>

datatype msg =
    ErrNotFound path
  | Installing string
  | ErrNoDescriptor string
  | Extracting string path
  | GamelistFound path
  | WarnNoGameinfo string
  | ErrBadZip string
  | ErrInstallFailed string exn
  | OkInstalled string
  | ErrBadGameinfo string
  | WarnCorruptedGamelist
  | Creating path
  | GamelistAdded nat string
  | InfoNoNewEntries string
  | ErrQueryRelease string exn
  | OkImagesUpdated string
  | ErrImageUpdate string exn
  | ErrMessage exn
  | ErrManifestUpdate exn

text \<open>
  A progress event \<^verbatim>\<open>(done, total, message, stage)\<close>. The percentage and the speed
  inside a progress message are floating point values of wall-clock time and are left
  out of the message.
\<close>

datatype stage = Download | Install | Phase

datatype pmsg =
    MsgProgress string
  | MsgDownloaded string
  | MsgFailed string exn
  | MsgInstallingPackages
  | MsgInstalling string
  | MsgInstalled string
  | MsgInstallFailed string
  | MsgInstallComplete

record event =
  bytes_done :: int
  bytes_total :: int
  message :: pmsg
  stage_of :: stage

record world =
  files :: fs
  out :: "msg list"
  progress_q :: "event list"
  requests :: "string list"

definition print :: "msg \<Rightarrow> world \<Rightarrow> world" where
  "print m w = w\<lparr>out := out w @ [m]\<rparr>"

subsection \<open>Metadata merge: \<^verbatim>\<open>AutoInstaller.gamelist_add\<close>\<close>

text \<open>
  The set \<^verbatim>\<open>existing_paths\<close>: the text of the first \<^verbatim>\<open>path\<close> child of every
  \<^verbatim>\<open>game\<close> child of the root that has one.
\<close>

definition has_path :: "xml \<Rightarrow> bool" where
  "has_path game = (find_elem ''path'' game \<noteq> None)"

definition path_text :: "xml \<Rightarrow> string option" where
  "path_text game = (case find_elem ''path'' game of None \<Rightarrow> None | Some p \<Rightarrow> text_of p)"

definition existing_paths_of :: "xml \<Rightarrow> string option set" where
  "existing_paths_of root = set (map path_text (filter has_path (findall ''game'' root)))"

text \<open>
  The loop over \<^verbatim>\<open>root_gameinfo.findall("game")\<close>. Its state is the children of the
  target root, \<^verbatim>\<open>existing_paths\<close> and \<^verbatim>\<open>count\<close>.
\<close>

fun merge_games ::
  "xml list \<Rightarrow> xml list \<times> string option set \<times> nat \<Rightarrow> xml list \<times> string option set \<times> nat"
where
  "merge_games [] st = st"
| "merge_games (game # rest) (kids, existing_paths, count) =
     (case find_elem ''path'' game of
        Some path_elem \<Rightarrow>
          (let p = text_of path_elem in
           if p \<notin> existing_paths
           then merge_games rest (kids @ [game], insert p existing_paths, count + 1)
           else merge_games rest (kids, existing_paths, count))
      | None \<Rightarrow> merge_games rest (kids, existing_paths, count))"

text \<open>
  Load or create \<^verbatim>\<open>gamelist.xml\<close>: a root whose tag is not \<^verbatim>\<open>gamelist\<close> in any case
  is renamed, a document that does not parse is replaced by an empty one, and any other
  exception of \<^verbatim>\<open>ET.parse\<close> propagates.
\<close>

definition load_gamelist :: "path \<Rightarrow> world \<Rightarrow> world \<times> (exn + xml)" where
  "load_gamelist gamelist_path w =
     (if path_exists (files w) gamelist_path then
        (case parse_xml (files w) gamelist_path of
           Inr root \<Rightarrow>
             (w, Inr (if lower (tag root) \<noteq> ''gamelist''
                      then Elem ''gameList'' (text_of root) (children root) else root))
         | Inl e \<Rightarrow>
             if e = ParseError
             then (print WarnCorruptedGamelist w, Inr (Elem ''gameList'' None []))
             else (w, Inl e))
      else (print (Creating gamelist_path) w, Inr (Elem ''gameList'' None [])))"

text \<open>
  \<^verbatim>\<open>gamelist_add\<close> is annotated \<^verbatim>\<open>-> None\<close> and has no \<^verbatim>\<open>return\<close> with a value: the
  returned value is \<^verbatim>\<open>None\<close> on every path. The result type \<open>nat option\<close> holds it,
  so that it can be compared with a count. \<^verbatim>\<open>ET.indent\<close> only rewrites whitespace
  between elements and is not modelled.
\<close>

definition gamelist_add :: "path \<Rightarrow> path \<Rightarrow> world \<Rightarrow> world \<times> (exn + nat option)" where
  "gamelist_add gameinfo_file gamelist_path w =
     (case parse_xml (files w) gameinfo_file of
        Inl e \<Rightarrow>
          if e = ParseError
          then (print (ErrBadGameinfo (path_name gameinfo_file)) w, Inr None)
          else (w, Inl e)
      | Inr root_gameinfo \<Rightarrow>
          (case load_gamelist gamelist_path w of
             (w1, Inl e) \<Rightarrow> (w1, Inl e)
           | (w1, Inr root) \<Rightarrow>
               (case merge_games (findall ''game'' root_gameinfo)
                       (children root, existing_paths_of root, 0) of
                  (kids, _, count) \<Rightarrow>
                    if count > 0 then
                      (case mkdir_p (files w1) (parent gamelist_path) of
                         Inl e \<Rightarrow> (w1, Inl e)
                       | Inr fs1 \<Rightarrow>
                           (case write_file fs1 gamelist_path
                                   (Xml (Elem (tag root) (text_of root) kids)) of
                              Inl e \<Rightarrow> (w1\<lparr>files := fs1\<rparr>, Inl e)
                            | Inr fs2 \<Rightarrow>
                                (print (GamelistAdded count (path_name gamelist_path))
                                   (w1\<lparr>files := fs2\<rparr>), Inr None)))
                    else (print (InfoNoNewEntries (path_name gameinfo_file)) w1, Inr None))))"

subsection \<open>Archives\<close>

text \<open>
  A member name is split at \<^verbatim>\<open>/\<close>. \<^verbatim>\<open>base / name\<close> of \<^verbatim>\<open>pathlib\<close> drops empty and
  \<^verbatim>\<open>.\<close> components and lets an absolute name replace the base; \<^verbatim>\<open>extractall\<close> also
  drops \<^verbatim>\<open>..\<close> and always stays below the base. A path is looked up as written: a
  \<^verbatim>\<open>..\<close> component is not resolved.
\<close>

fun split_slash :: "string \<Rightarrow> string \<Rightarrow> string list" where
  "split_slash cur [] = [rev cur]"
| "split_slash cur (c # cs) =
     (if c = CHR ''/'' then rev cur # split_slash [] cs else split_slash (c # cur) cs)"

definition parts :: "string \<Rightarrow> path" where
  "parts s = filter (\<lambda>c. c \<noteq> [] \<and> c \<noteq> ''.'') (split_slash [] s)"

definition sanitize :: "string \<Rightarrow> path" where
  "sanitize s = filter (\<lambda>c. c \<noteq> [] \<and> c \<noteq> ''.'' \<and> c \<noteq> ''..'') (split_slash [] s)"

definition pjoin :: "path \<Rightarrow> string \<Rightarrow> path" where
  "pjoin d s = (if s \<noteq> [] \<and> hd s = CHR ''/'' then parts s else d @ parts s)"

text \<open>
  \<^verbatim>\<open>zipfile.ZipFile(p, "r")\<close>: \<open>unzip\<close> gives the members of an archive, in the order
  of \<^verbatim>\<open>namelist()\<close>, or nothing for bytes that are no archive.
\<close>

type_synonym members = "(string \<times> content) list"

definition open_zip :: "(string \<Rightarrow> members option) \<Rightarrow> fs \<Rightarrow> path \<Rightarrow> exn + members" where
  "open_zip unzip fs p =
     (case read_file fs p of
        Inl e \<Rightarrow> Inl e
      | Inr (Raw b) \<Rightarrow> (case unzip b of None \<Rightarrow> Inl BadZipFile | Some ms \<Rightarrow> Inr ms)
      | Inr _ \<Rightarrow> Inl BadZipFile)"

text \<open>
  \<^verbatim>\<open>ZipFile.extractall(base)\<close>, member by member: a name ending in \<^verbatim>\<open>/\<close> is a
  directory; the missing directories above a file are created. The first exception ends
  the extraction and leaves what was extracted before it.
\<close>

definition extract_member :: "fs \<Rightarrow> path \<Rightarrow> string \<times> content \<Rightarrow> exn + fs" where
  "extract_member fs base m =
     (let targetpath = base @ sanitize (fst m) in
      if endswith (fst m) ''/'' then mkdir_p fs targetpath
      else (case (if path_exists fs (parent targetpath) then Inr fs
                  else mkdir_p fs (parent targetpath)) of
              Inl e \<Rightarrow> Inl e
            | Inr fs1 \<Rightarrow> write_file fs1 targetpath (snd m)))"

fun extractall :: "fs \<Rightarrow> path \<Rightarrow> members \<Rightarrow> fs \<times> exn option" where
  "extractall fs base [] = (fs, None)"
| "extractall fs base (m # ms) =
     (case extract_member fs base m of
        Inl e \<Rightarrow> (fs, Some e)
      | Inr fs1 \<Rightarrow> extractall fs1 base ms)"

text \<open>
  \<^verbatim>\<open>base.rglob(pattern)\<close>: the paths strictly below \<open>base\<close> whose name matches;
  \<^verbatim>\<open>shutil.rmtree(p, ignore_errors=True)\<close>; \<^verbatim>\<open>p.unlink(missing_ok=True)\<close>, which
  raises on a directory.
\<close>

definition rglob :: "fs \<Rightarrow> path \<Rightarrow> (string \<Rightarrow> bool) \<Rightarrow> path list" where
  "rglob fs base P = remdups (filter (\<lambda>p. strict_prefix base p \<and> P (path_name p)) (map fst fs))"

definition rmtree :: "fs \<Rightarrow> path \<Rightarrow> fs" where
  "rmtree fs p = filter (\<lambda>e. \<not> prefix p (fst e)) fs"

definition unlink_missing_ok :: "fs \<Rightarrow> path \<Rightarrow> exn + fs" where
  "unlink_missing_ok fs p =
     (if is_dir fs p then Inl IsADirectoryError else Inr (AList.delete p fs))"

fun unlink_all :: "fs \<Rightarrow> path list \<Rightarrow> fs \<times> exn option" where
  "unlink_all fs [] = (fs, None)"
| "unlink_all fs (p # ps) =
     (case unlink_missing_ok fs p of
        Inl e \<Rightarrow> (fs, Some e)
      | Inr fs1 \<Rightarrow> unlink_all fs1 ps)"

text \<open>The two loops under \<^verbatim>\<open># Clean macOS junk\<close>.\<close>

definition clean_junk :: "fs \<Rightarrow> path \<Rightarrow> fs \<times> exn option" where
  "clean_junk fs base_dir =
     (let fs1 = fold (\<lambda>junk f. if is_dir f junk then rmtree f junk else f)
                  (rglob fs base_dir (\<lambda>n. n = ''__MACOSX'')) fs
      in unlink_all fs1 (rglob fs1 base_dir (\<lambda>n. endswith n ''.DS_Store'')))"

subsection \<open>Install engine: \<^verbatim>\<open>AutoInstaller.install_zip\<close>\<close>

definition PORTS_DIR :: path where
  "PORTS_DIR = [''roms'', ''ports'']"

definition WINDOWS_DIR :: path where
  "WINDOWS_DIR = [''roms'', ''windows'']"

text \<open>
  The body of the \<^verbatim>\<open>try\<close> block. It returns \<open>Some 255\<close> for the \<^verbatim>\<open>return 255\<close>
  inside the block, \<open>None\<close> when the block runs to its end, and the exception when one
  is raised. An exception of \<^verbatim>\<open>gamelist_add\<close> is not caught here.
\<close>

definition install_try ::
  "(string \<Rightarrow> members option) \<Rightarrow> path \<Rightarrow> string \<Rightarrow> world \<Rightarrow> world \<times> (exn + int option)"
where
  "install_try unzip zip_path zip_name w =
     (case open_zip unzip (files w) zip_path of
        Inl e \<Rightarrow> (w, Inl e)
      | Inr zf \<Rightarrow>
          (case List.find (\<lambda>f. endswith f ''port.json'' \<or> endswith f ''bottle.json'')
                  (map fst zf) of
             None \<Rightarrow> (print (ErrNoDescriptor zip_name) w, Inr (Some 255))
           | Some target_json \<Rightarrow>
               (let is_port = endswith target_json ''port.json'';
                    base_dir = (if is_port then PORTS_DIR else WINDOWS_DIR);
                    gamelist_path = base_dir @ [''gamelist.xml'']
                in case mkdir_p (files w) base_dir of
                     Inl e \<Rightarrow> (w, Inl e)
                   | Inr fs1 \<Rightarrow>
                       (let w1 = print (Extracting zip_name base_dir) (w\<lparr>files := fs1\<rparr>)
                        in case extractall fs1 base_dir zf of
                             (fs2, Some e) \<Rightarrow> (w1\<lparr>files := fs2\<rparr>, Inl e)
                           | (fs2, None) \<Rightarrow>
                               (case clean_junk fs2 base_dir of
                                  (fs3, Some e) \<Rightarrow> (w1\<lparr>files := fs3\<rparr>, Inl e)
                                | (fs3, None) \<Rightarrow>
                                    (case List.find
                                            (\<lambda>f. endswith f ''gameinfo.xml''
                                               \<and> is_file fs3 (pjoin base_dir f))
                                            (map fst zf) of
                                       Some f \<Rightarrow>
                                         (case gamelist_add (pjoin base_dir f) gamelist_path
                                                 (print (GamelistFound (pjoin base_dir f))
                                                    (w1\<lparr>files := fs3\<rparr>)) of
                                            (w4, Inl e) \<Rightarrow> (w4, Inl e)
                                          | (w4, Inr _) \<Rightarrow> (w4, Inr None))
                                     | None \<Rightarrow>
                                         (print (WarnNoGameinfo zip_name)
                                            (w1\<lparr>files := fs3\<rparr>), Inr None)))))))"

text \<open>
  \<^verbatim>\<open>install_zip\<close>: 255 for a missing archive, for the \<^verbatim>\<open>return 255\<close> of the block and
  for every exception of the block; otherwise the archive is unlinked and the status is 0.
\<close>

definition install_zip ::
  "(string \<Rightarrow> members option) \<Rightarrow> path \<Rightarrow> string \<Rightarrow> world \<Rightarrow> world \<times> (exn + int)"
where
  "install_zip unzip autoinstall_dir zip_name w =
     (let zip_path = pjoin autoinstall_dir zip_name in
      if \<not> is_file (files w) zip_path then (print (ErrNotFound zip_path) w, Inr 255)
      else
        (case install_try unzip zip_path zip_name (print (Installing zip_name) w) of
           (w1, Inl e) \<Rightarrow>
             if e = BadZipFile then (print (ErrBadZip zip_name) w1, Inr 255)
             else (print (ErrInstallFailed zip_name e) w1, Inr 255)
         | (w1, Inr (Some rc)) \<Rightarrow> (w1, Inr rc)
         | (w1, Inr None) \<Rightarrow>
             (case unlink_missing_ok (files w1) zip_path of
                Inl e \<Rightarrow> (w1, Inl e)
              | Inr fs' \<Rightarrow> (print (OkInstalled zip_name) (w1\<lparr>files := fs'\<rparr>), Inr 0))))"

subsection \<open>Fingerprint ledger: \<^verbatim>\<open>Downloader._update_manifest\<close>\<close>

text \<open>The dataclass \<^verbatim>\<open>Port\<close> of \<^verbatim>\<open>config.py\<close>, and \<^verbatim>\<open>dataclasses.asdict\<close>.\<close>

record port =
  name :: string
  title :: string
  desc :: string
  download_url :: string
  image_path :: "string option"
  date_updated :: "string option"
  size_bytes :: "int option"
  md5 :: "string option"

definition opt_str :: "string option \<Rightarrow> json" where
  "opt_str v = (case v of None \<Rightarrow> JNull | Some s \<Rightarrow> JStr s)"

definition opt_int :: "int option \<Rightarrow> json" where
  "opt_int v = (case v of None \<Rightarrow> JNull | Some i \<Rightarrow> JInt i)"

definition asdict :: "port \<Rightarrow> json" where
  "asdict p = JDict
     [(''name'', JStr (name p)), (''title'', JStr (title p)), (''desc'', JStr (desc p)),
      (''download_url'', JStr (download_url p)), (''image_path'', opt_str (image_path p)),
      (''date_updated'', opt_str (date_updated p)), (''size'', opt_int (size_bytes p)),
      (''md5'', opt_str (md5 p))]"

text \<open>
  \<^verbatim>\<open>x.get(k, default)\<close> exists on a dict only; iteration runs over the elements of a
  list, the characters of a string and the keys of a dict, and raises on anything else.
\<close>

definition dict_get :: "json \<Rightarrow> string \<Rightarrow> json \<Rightarrow> exn + json" where
  "dict_get x k dflt =
     (case x of
        JDict kv \<Rightarrow> Inr (case map_of kv k of Some v \<Rightarrow> v | None \<Rightarrow> dflt)
      | _ \<Rightarrow> Inl AttributeError)"

definition py_iter :: "json \<Rightarrow> exn + json list" where
  "py_iter x =
     (case x of
        JList xs \<Rightarrow> Inr xs
      | JStr s \<Rightarrow> Inr (map (\<lambda>c. JStr [c]) s)
      | JDict kv \<Rightarrow> Inr (map (\<lambda>e. JStr (fst e)) kv)
      | _ \<Rightarrow> Inl TypeError)"

text \<open>\<^verbatim>\<open>d.get("name", "").lower()\<close>: only a string has \<^verbatim>\<open>lower\<close>.\<close>

definition name_lower :: "json \<Rightarrow> exn + string" where
  "name_lower d =
     (case dict_get d ''name'' (JStr []) of
        Inl e \<Rightarrow> Inl e
      | Inr (JStr s) \<Rightarrow> Inr (lower s)
      | Inr _ \<Rightarrow> Inl AttributeError)"

text \<open>
  The list comprehension: the records whose lowered name differs from the lowered name
  of the port, in order. The first record that raises ends it.
\<close>

fun keep_others :: "string \<Rightarrow> json list \<Rightarrow> exn + json list" where
  "keep_others n [] = Inr []"
| "keep_others n (d # ds) =
     (case name_lower d of
        Inl e \<Rightarrow> Inl e
      | Inr l \<Rightarrow>
          (case keep_others n ds of
             Inl e \<Rightarrow> Inl e
           | Inr r \<Rightarrow> Inr (if l \<noteq> lower n then d # r else r)))"

text \<open>
  The in-memory update of \<^verbatim>\<open>data\<close>: \<^verbatim>\<open>data[key]\<close> is replaced by the kept records
  followed by the new one, and \<^verbatim>\<open>data[other_key]\<close> is set to what it was, or to an empty
  list when the key was missing.
\<close>

definition ledger_key :: "string \<Rightarrow> string" where
  "ledger_key kind = (if kind = ''port'' then ''ports'' else ''bottles'')"

definition ledger_other_key :: "string \<Rightarrow> string" where
  "ledger_other_key kind = (if kind = ''port'' then ''bottles'' else ''ports'')"

definition record_port :: "json \<Rightarrow> port \<Rightarrow> string \<Rightarrow> exn + json" where
  "record_port data p kind =
     (let key = ledger_key kind; other_key = ledger_other_key kind in
      case dict_get data key (JList []) of
        Inl e \<Rightarrow> Inl e
      | Inr v \<Rightarrow>
          (case py_iter v of
             Inl e \<Rightarrow> Inl e
           | Inr ds \<Rightarrow>
               (case keep_others (name p) ds of
                  Inl e \<Rightarrow> Inl e
                | Inr kept \<Rightarrow>
                    (case data of
                       JDict kv \<Rightarrow>
                         (let kv1 = AList.update key (JList (kept @ [asdict p])) kv;
                              kv2 = AList.update other_key
                                      (case map_of kv1 other_key of
                                         Some x \<Rightarrow> x | None \<Rightarrow> JList []) kv1
                          in Inr (JDict kv2))
                     | _ \<Rightarrow> Inl AttributeError))))"

text \<open>
  Loading the ledger: a missing file and every exception of \<^verbatim>\<open>open\<close> or
  \<^verbatim>\<open>json.load\<close> leave the empty two-partition document.
\<close>

definition empty_manifest :: json where
  "empty_manifest = JDict [(''ports'', JList []), (''bottles'', JList [])]"

definition load_manifest :: "fs \<Rightarrow> path \<Rightarrow> json" where
  "load_manifest fs p =
     (if path_exists fs p then
        (case read_file fs p of
           Inr (Json j) \<Rightarrow> j
         | _ \<Rightarrow> empty_manifest)
      else empty_manifest)"

text \<open>
  The \<^verbatim>\<open>try\<close> block that writes the ledger. A fault is an \<^verbatim>\<open>OSError\<close> injected at one
  of its steps; a write or flush that fails leaves the given bytes in the temporary file.
  The block yields the file systems after each of its steps that changed the file system,
  and the exception that ended it. \<^verbatim>\<open>os.replace\<close> is one step.
\<close>

datatype ledger_fault =
    NoFault
  | OpenFails
  | WriteFails string
  | FlushFails string
  | FsyncFails
  | ReplaceFails

definition os_replace :: "fs \<Rightarrow> path \<Rightarrow> path \<Rightarrow> exn + fs" where
  "os_replace fs src dst =
     (case lookup fs src of
        None \<Rightarrow> Inl FileNotFoundError
      | Some n \<Rightarrow>
          if is_dir fs dst \<and> n \<noteq> Dir then Inl IsADirectoryError
          else if is_file fs dst \<and> n = Dir then Inl NotADirectoryError
          else Inr (AList.delete src (AList.update dst n fs)))"

definition write_manifest ::
  "ledger_fault \<Rightarrow> fs \<Rightarrow> path \<Rightarrow> path \<Rightarrow> json \<Rightarrow> fs list \<times> exn option"
where
  "write_manifest fault fs tmp target data =
     (if fault = OpenFails then ([], Some IOFault)
      else
        (case write_file fs tmp (Raw []) of
           Inl e \<Rightarrow> ([], Some e)
         | Inr fs1 \<Rightarrow>
             (case fault of
                WriteFails s \<Rightarrow> ([fs1, AList.update tmp (File (Raw s)) fs1], Some IOFault)
              | FlushFails s \<Rightarrow> ([fs1, AList.update tmp (File (Raw s)) fs1], Some IOFault)
              | _ \<Rightarrow>
                  (let fs2 = AList.update tmp (File (Json data)) fs1 in
                   if fault = FsyncFails then ([fs1, fs2], Some IOFault)
                   else if fault = ReplaceFails then ([fs1, fs2], Some IOFault)
                   else (case os_replace fs2 tmp target of
                           Inl e \<Rightarrow> ([fs1, fs2], Some e)
                         | Inr fs3 \<Rightarrow> ([fs1, fs2, fs3], None))))))"

text \<open>\<^verbatim>\<open>with suppress(OSError): tmp.unlink()\<close>: a missing file or a directory stays.\<close>

definition unlink_suppressed :: "fs \<Rightarrow> path \<Rightarrow> fs" where
  "unlink_suppressed fs p = (if is_file fs p then AList.delete p fs else fs)"

text \<open>
  All file systems an observer can see during \<^verbatim>\<open>_update_manifest\<close> once \<^verbatim>\<open>data\<close> is
  computed, in order: the initial one, those of the block, and after an exception the
  one the handler leaves.
\<close>

definition manifest_states ::
  "ledger_fault \<Rightarrow> fs \<Rightarrow> path \<Rightarrow> path \<Rightarrow> json \<Rightarrow> fs list"
where
  "manifest_states fault fs tmp target data =
     (case write_manifest fault fs tmp target data of
        (sts, None) \<Rightarrow> fs # sts
      | (sts, Some e) \<Rightarrow> fs # sts @ [unlink_suppressed (last (fs # sts)) tmp])"

definition MANIFEST_PATH :: "path \<Rightarrow> path" where
  "MANIFEST_PATH base_dir = base_dir @ [''resources'', ''manifest.json'']"

definition MANIFEST_TMP :: "path \<Rightarrow> path" where
  "MANIFEST_TMP base_dir = base_dir @ [''resources'', ''manifest.tmp'']"

text \<open>
  \<^verbatim>\<open>_update_manifest\<close>. An exception of the in-memory update is raised to the caller
  before anything is written; an exception of the write is printed.
\<close>

definition update_manifest ::
  "path \<Rightarrow> ledger_fault \<Rightarrow> port \<Rightarrow> string \<Rightarrow> world \<Rightarrow> world \<times> (exn + unit)"
where
  "update_manifest base_dir fault p kind w =
     (case record_port (load_manifest (files w) (MANIFEST_PATH base_dir)) p kind of
        Inl e \<Rightarrow> (w, Inl e)
      | Inr data \<Rightarrow>
          (case write_manifest fault (files w) (MANIFEST_TMP base_dir)
                  (MANIFEST_PATH base_dir) data of
             (sts, None) \<Rightarrow> (w\<lparr>files := last (files w # sts)\<rparr>, Inr ())
           | (sts, Some e) \<Rightarrow>
               (print (ErrManifestUpdate e) w
                  \<lparr>files := unlink_suppressed (last (files w # sts)) (MANIFEST_TMP base_dir)\<rparr>,
                Inr ())))"

subsection \<open>The environment of the download worker\<close>

text \<open>
  What the worker receives from outside the program. A streamed response is the
  \<^verbatim>\<open>Content-Length\<close> header and what the successive iterations of the read loop meet:
  a chunk that is read and written, a chunk that is read but whose write raises, or a
  read that raises; after the last step the stream is at its end.
\<close>

datatype header = Absent | Length int | Malformed

datatype step = Chunk string | WriteError string | ReadError exn

datatype response = ConnError exn | Response header "step list"

text \<open>
  \<open>gh_request\<close> is \<^verbatim>\<open>_gh_request\<close>: the body of the reply, as bytes or as the document
  \<^verbatim>\<open>json.loads\<close> makes of it, or the exception of \<^verbatim>\<open>urlopen\<close>. \<open>urlparse_path\<close> is
  \<^verbatim>\<open>urllib.parse.urlparse(url).path\<close>, \<open>zip_reader\<close> is \<^verbatim>\<open>zipfile.ZipFile\<close>,
  \<open>md5_hexdigest\<close> is \<^verbatim>\<open>hashlib.md5(b).hexdigest()\<close>. The two faults are injected
  \<^verbatim>\<open>OSError\<close>s: one in the write sequence of the ledger, one in the write of the
  image archive, which then holds the given bytes.
\<close>

record env =
  BASE_DIR :: path
  gh_request :: "string \<Rightarrow> exn + content"
  urlparse_path :: "string \<Rightarrow> string"
  zip_reader :: "string \<Rightarrow> members option"
  urlopen :: "string \<Rightarrow> response"
  md5_hexdigest :: "string \<Rightarrow> string"
  ledger_fault :: ledger_fault
  archive_fault :: "string option"

subsection \<open>Image sync: \<^verbatim>\<open>Downloader.fetch_repo_images\<close>\<close>








text \<open>
  \<^verbatim>\<open>for item in images_dir.iterdir()\<close>: every child but the descriptor and the archive
  is removed, a directory with all that is below it.
\<close>

definition iterdir :: "fs \<Rightarrow> path \<Rightarrow> path list" where
  "iterdir fs d = remdups (filter (\<lambda>p. p \<noteq> [] \<and> parent p = d) (map fst fs))"








text \<open>
  For the statements about the image set: \<open>p\<close> is a child of the image directory other
  than the descriptor and the archive, or lies below such a child that is a directory.
\<close>

definition old_image :: "fs \<Rightarrow> path \<Rightarrow> path \<Rightarrow> bool" where
  "old_image fs d p \<longleftrightarrow>
     (\<exists>c \<in> set (iterdir fs d). c \<noteq> d @ [''images.json''] \<and> c \<noteq> d @ [''images.zip'']
        \<and> (p = c \<or> (is_dir fs c \<and> prefix c p)))"

text \<open>
  The specification's reading of the loop, for comparison with \<open>merge_games\<close>: the
  entries a first-wins merge appends, given the set of paths seen so far.
\<close>

fun first_wins :: "string option set \<Rightarrow> xml list \<Rightarrow> xml list" where
  "first_wins seen [] = []"
| "first_wins seen (g # gs) =
     (if has_path g \<and> path_text g \<notin> seen
      then g # first_wins (insert (path_text g) seen) gs
      else first_wins seen gs)"

text \<open>
  A relation between two file systems, for the proofs: every file is still a file and
  every directory still a directory.
\<close>

definition same_kind :: "fs \<Rightarrow> fs \<Rightarrow> bool" where
  "same_kind fs fs' \<longleftrightarrow> (\<forall>p. (is_file fs p \<longrightarrow> is_file fs' p) \<and> (is_dir fs p \<longrightarrow> is_dir fs' p))"

(*MODEL-END*)

section \<open>Example inputs\<close>

text \<open>
  A metadata document with a known path, an entry without a path, a new path and a
  repetition of the new path; a library index that already lists the known path.
\<close>

definition ex_gameinfo :: xml where
  "ex_gameinfo = Elem ''gameList'' None
     [Elem ''game'' None [Elem ''path'' (Some ''./a.sh'') []],
      Elem ''game'' None [Elem ''name'' (Some ''nameless'') []],
      Elem ''game'' None [Elem ''path'' (Some ''./b.sh'') []],
      Elem ''game'' None [Elem ''path'' (Some ''./b.sh'') [], Elem ''name'' (Some ''again'') []]]"

definition ex_known :: xml where
  "ex_known = Elem ''gameList'' None
     [Elem ''game'' None [Elem ''path'' (Some ''./a.sh'') [], Elem ''name'' (Some ''new'') []]]"

definition ex_fresh :: xml where
  "ex_fresh = Elem ''gameList'' None
     [Elem ''game'' None [Elem ''path'' (Some ''./c.sh'') []],
      Elem ''game'' None [Elem ''path'' (Some ''./d.sh'') []]]"

definition ex_gamelist :: xml where
  "ex_gamelist = Elem ''gameList'' None
     [Elem ''game'' None [Elem ''path'' (Some ''./a.sh'') [], Elem ''name'' (Some ''old'') []]]"

definition ex_world :: world where
  "ex_world = \<lparr>files =
      [([''s''], Dir),
       ([''s'', ''gameinfo.xml''], File (Xml ex_gameinfo)),
       ([''s'', ''known.xml''], File (Xml ex_known)),
       ([''s'', ''fresh.xml''], File (Xml ex_fresh)),
       ([''l''], Dir),
       ([''l'', ''gamelist.xml''], File (Xml ex_gamelist))],
     out = [], progress_q = [], requests = []\<rparr>"

text \<open>
  Three archives: one with a descriptor, a metadata document and junk, one without a
  descriptor, one whose metadata document does not parse. Any other bytes are no archive.
  A staging directory with one file of each kind, and a world whose library index path is
  a directory.
\<close>

definition ex_unzip :: "string \<Rightarrow> members option" where
  "ex_unzip b =
     (if b = ''PK-port'' then
        Some [(''game/'', Raw []), (''game/port.json'', Raw ''{}''),
              (''game/gameinfo.xml'', Xml ex_fresh), (''__MACOSX/'', Raw []),
              (''__MACOSX/x'', Raw ''junk'')]
      else if b = ''PK-nodesc'' then Some [(''readme.txt'', Raw ''hello'')]
      else if b = ''PK-badinfo'' then
        Some [(''port.json'', Raw ''{}''), (''gameinfo.xml'', Raw ''<gameList'')]
      else None)"

definition ex_stage :: world where
  "ex_stage = \<lparr>files =
      [([''stage''], Dir),
       ([''stage'', ''a.zip''], File (Raw ''PK-port'')),
       ([''stage'', ''b.zip''], File (Raw ''PK-nodesc'')),
       ([''stage'', ''c.zip''], File (Raw ''garbage'')),
       ([''stage'', ''d.zip''], File (Raw ''PK-badinfo''))],
     out = [], progress_q = [], requests = []\<rparr>"


text \<open>A package, and a ledger that lists it under another spelling in both partitions.\<close>

definition ex_port :: port where
  "ex_port = \<lparr>name = ''Celeste'', title = ''Celeste Classic'', desc = ''A game'',
     download_url = ''https://example.org/celeste.zip'', image_path = None,
     date_updated = None, size_bytes = Some 7, md5 = Some ''abc''\<rparr>"

definition ex_ledger :: json where
  "ex_ledger = JDict
     [(''ports'', JList [JDict [(''name'', JStr ''CELESTE''), (''md5'', JStr ''old'')],
                         JDict [(''name'', JStr ''Doom'')]]),
      (''bottles'', JList [JDict [(''name'', JStr ''celeste'')]])]"

definition ex_ledger_world :: world where
  "ex_ledger_world = \<lparr>files =
      [([''app''], Dir), ([''app'', ''resources''], Dir),
       ([''app'', ''resources'', ''manifest.json''], File (Json ex_ledger))],
     out = [], progress_q = [], requests = []\<rparr>"








section \<open>Metadata merge\<close>

lemma merge_games_filter:
  "merge_games src st = merge_games (filter has_path src) st"
proof (induction src arbitrary: st)
  case Nil show ?case by simp
next
  case (Cons g gs)
  obtain kids ex n where st: "st = (kids, ex, n)" by (cases st) auto
  show ?case using Cons.IH
    by (simp add: st has_path_def Let_def split: option.splits)
qed

lemma merge_games_eq:
  "merge_games src (kids, ex, n) =
     (kids @ first_wins ex src, ex \<union> set (map path_text (first_wins ex src)),
      n + length (first_wins ex src))"
proof (induction src arbitrary: kids ex n)
  case Nil show ?case by simp
next
  case (Cons g gs)
  show ?case
    by (auto simp: Cons.IH has_path_def path_text_def Let_def split: option.splits)
qed

lemma first_wins_subseq: "subseq (first_wins seen src) src"
  by (induction src arbitrary: seen) auto

lemma first_wins_set: "set (first_wins seen src) \<subseteq> set src"
  by (induction src arbitrary: seen) auto

lemma first_wins_has_path:
  "g \<in> set (first_wins seen src) \<Longrightarrow> has_path g \<and> path_text g \<notin> seen"
  by (induction src arbitrary: seen) (auto split: if_splits)

lemma first_wins_distinct: "distinct (map path_text (first_wins seen src))"
  by (induction src arbitrary: seen) (auto dest: first_wins_has_path)




lemma write_file_read:
  "write_file fs p c = Inr fs' \<Longrightarrow> read_file fs' p = Inr c"
  by (auto simp: write_file_def read_file_def lookup_def is_dir_def update_conv'
      split: if_splits option.splits node.splits)

lemma write_file_parse:
  "write_file fs p (Xml x) = Inr fs' \<Longrightarrow> parse_xml fs' p = Inr x"
  by (simp add: parse_xml_def write_file_read)


lemma gamelist_add_unfold:
  assumes src: "parse_xml (files w) gameinfo_file = Inr src"
      and tgt: "load_gamelist gamelist_path w = (w1, Inr root)"
  shows "gamelist_add gameinfo_file gamelist_path w =
     (let added = first_wins (existing_paths_of root) (findall ''game'' src) in
      if added \<noteq> [] then
        (case mkdir_p (files w1) (parent gamelist_path) of
           Inl e \<Rightarrow> (w1, Inl e)
         | Inr fs1 \<Rightarrow>
             (case write_file fs1 gamelist_path
                     (Xml (Elem (tag root) (text_of root) (children root @ added))) of
                Inl e \<Rightarrow> (w1\<lparr>files := fs1\<rparr>, Inl e)
              | Inr fs2 \<Rightarrow>
                  (print (GamelistAdded (length added) (path_name gamelist_path))
                     (w1\<lparr>files := fs2\<rparr>), Inr None)))
      else (print (InfoNoNewEntries (path_name gameinfo_file)) w1, Inr None))"
  by (simp add: gamelist_add_def src tgt merge_games_eq Let_def)

lemma load_gamelist_files: "load_gamelist p w = (w1, r) \<Longrightarrow> files w1 = files w"
  by (auto simp: load_gamelist_def print_def split: if_splits sum.splits)


lemma findall_append_added:
  "length (findall ''game'' (Elem t x (children root @ first_wins seen (findall ''game'' src))))
     = length (findall ''game'' root) + length (first_wins seen (findall ''game'' src))"
proof -
  have "filter (\<lambda>c. tag c = ''game'') (first_wins seen (findall ''game'' src))
          = first_wins seen (findall ''game'' src)"
    using first_wins_set[of seen "findall ''game'' src"]
    by (intro filter_True) (auto simp: findall_def)
  then show ?thesis by (simp add: findall_def)
qed



text \<open>
  C4, as the code has it. \<^verbatim>\<open>gamelist_add\<close> returns \<^verbatim>\<open>None\<close> whenever it returns. The
  number \<open>n\<close> of entries added in the invocation is only printed: the last line of
  output is \<^verbatim>\<open>[GAMELIST] Added n game(s)\<close> when \<open>n > 0\<close>, and then the index written
  has \<open>n\<close> more \<^verbatim>\<open>game\<close> entries than the loaded one; it is \<^verbatim>\<open>[INFO] No new entries\<close>
  when \<open>n = 0\<close>, and then no file changes.
\<close>

theorem gamelist_add_returns_None:
  assumes res: "gamelist_add gameinfo_file gamelist_path w = (w', Inr r)"
  shows "r = None \<and>
    (\<forall>src w1 root. parse_xml (files w) gameinfo_file = Inr src
        \<and> load_gamelist gamelist_path w = (w1, Inr root) \<longrightarrow>
      (\<exists>n. out w' = out w1 @ [if 0 < n then GamelistAdded n (path_name gamelist_path)
                                else InfoNoNewEntries (path_name gameinfo_file)]
          \<and> (if 0 < n
              then \<exists>new. parse_xml (files w') gamelist_path = Inr new
                     \<and> length (findall ''game'' new) = length (findall ''game'' root) + n
              else files w' = files w)))"
proof (intro conjI allI impI)
  show "r = None"
    using res
    by (auto simp: gamelist_add_def print_def split: sum.splits if_splits prod.splits)
next
  fix src w1 root
  assume a: "parse_xml (files w) gameinfo_file = Inr src
        \<and> load_gamelist gamelist_path w = (w1, Inr root)"
  then have src: "parse_xml (files w) gameinfo_file = Inr src"
    and tgt: "load_gamelist gamelist_path w = (w1, Inr root)" by auto
  define added where "added = first_wins (existing_paths_of root) (findall ''game'' src)"
  show "\<exists>n. out w' = out w1 @ [if 0 < n then GamelistAdded n (path_name gamelist_path)
                                else InfoNoNewEntries (path_name gameinfo_file)]
          \<and> (if 0 < n
              then \<exists>new. parse_xml (files w') gamelist_path = Inr new
                     \<and> length (findall ''game'' new) = length (findall ''game'' root) + n
              else files w' = files w)"
    apply (rule exI[of _ "length added"])
    using res load_gamelist_files[OF tgt]
    unfolding gamelist_add_unfold[OF src tgt] added_def[symmetric] Let_def
    by (auto simp: print_def write_file_parse added_def findall_append_added
          split: if_splits sum.splits)
qed

theorem gamelist_add_returns_None_witness:
  "gamelist_add [''s'', ''gameinfo.xml''] [''l'', ''gamelist.xml''] ex_world =
     (ex_world\<lparr>files :=
        AList.update [''l'', ''gamelist.xml'']
          (File (Xml (Elem ''gameList'' None
            (children ex_gamelist @ [Elem ''game'' None [Elem ''path'' (Some ''./b.sh'') []]]))))
          (files ex_world),
       out := [GamelistAdded 1 ''gamelist.xml'']\<rparr>, Inr None)
   \<and> (None :: nat option) = None"
proof -
  have h: "gamelist_add [''s'', ''gameinfo.xml''] [''l'', ''gamelist.xml''] ex_world =
     (ex_world\<lparr>files :=
        AList.update [''l'', ''gamelist.xml'']
          (File (Xml (Elem ''gameList'' None
            (children ex_gamelist @ [Elem ''game'' None [Elem ''path'' (Some ''./b.sh'') []]]))))
          (files ex_world),
       out := [GamelistAdded 1 ''gamelist.xml'']\<rparr>, Inr None)"
    by code_simp
  from gamelist_add_returns_None[OF h] h show ?thesis by simp
qed

text \<open>
  The merge below adds one entry to an index of one entry, and the value returned is
  \<^verbatim>\<open>None\<close>, not the count 1.
\<close>

theorem gamelist_add_count_counterexample:
  "length (findall ''game'' ex_gamelist) = 1
   \<and> (case parse_xml
             (files (fst (gamelist_add [''s'', ''gameinfo.xml''] [''l'', ''gamelist.xml''] ex_world)))
             [''l'', ''gamelist.xml''] of
        Inr new \<Rightarrow> length (findall ''game'' new) = 2 | Inl e \<Rightarrow> False)
   \<and> snd (gamelist_add [''s'', ''gameinfo.xml''] [''l'', ''gamelist.xml''] ex_world) = Inr None
   \<and> snd (gamelist_add [''s'', ''gameinfo.xml''] [''l'', ''gamelist.xml''] ex_world)
        \<noteq> Inr (Some 1)"
  by code_simp

text \<open>
  C10. The merge loop gives the same children, the same path set and the same count on
  the source entries as on the source entries that have a \<^verbatim>\<open>path\<close> child: every entry
  it appends has one, and the count is the number of entries appended.
\<close>

theorem pathless_entries_ignored:
  "merge_games src (kids, existing_paths, count) =
     merge_games (filter has_path src) (kids, existing_paths, count)
   \<and> (\<exists>added. merge_games src (kids, existing_paths, count) =
         (kids @ added, existing_paths \<union> set (map path_text added), count + length added)
       \<and> list_all has_path added \<and> subseq added src)"
proof
  show "merge_games src (kids, existing_paths, count) =
     merge_games (filter has_path src) (kids, existing_paths, count)"
    by (rule merge_games_filter)
  show "\<exists>added. merge_games src (kids, existing_paths, count) =
         (kids @ added, existing_paths \<union> set (map path_text added), count + length added)
       \<and> list_all has_path added \<and> subseq added src"
    by (rule exI[of _ "first_wins existing_paths src"])
       (auto simp: merge_games_eq first_wins_subseq list_all_iff dest: first_wins_has_path)
qed

theorem pathless_entries_ignored_witness:
  "merge_games (findall ''game'' ex_gameinfo)
       (children ex_gamelist, existing_paths_of ex_gamelist, 0)
     = (children ex_gamelist @ [Elem ''game'' None [Elem ''path'' (Some ''./b.sh'') []]],
        {Some ''./a.sh'', Some ''./b.sh''}, 1)
   \<and> merge_games (filter has_path (findall ''game'' ex_gameinfo))
        (children ex_gamelist, existing_paths_of ex_gamelist, 0)
     = (children ex_gamelist @ [Elem ''game'' None [Elem ''path'' (Some ''./b.sh'') []]],
        {Some ''./a.sh'', Some ''./b.sh''}, 1)"
proof -
  have h: "merge_games (filter has_path (findall ''game'' ex_gameinfo))
        (children ex_gamelist, existing_paths_of ex_gamelist, 0)
     = (children ex_gamelist @ [Elem ''game'' None [Elem ''path'' (Some ''./b.sh'') []]],
        {Some ''./a.sh'', Some ''./b.sh''}, 1)"
    by code_simp
  from pathless_entries_ignored[of "findall ''game'' ex_gameinfo" "children ex_gamelist"
      "existing_paths_of ex_gamelist" 0] h
  show ?thesis by simp
qed

section \<open>Install engine\<close>

lemma lookup_Nil [simp]: "lookup fs [] = Some Dir"
  by (simp add: lookup_def)

lemma lookup_update:
  "lookup (AList.update q v fs) p = (if p = [] then Some Dir else if p = q then Some v else lookup fs p)"
  by (simp add: lookup_def update_conv')

lemma lookup_delete:
  "lookup (AList.delete q fs) p = (if p = [] then Some Dir else if p = q then None else lookup fs p)"
  by (simp add: lookup_def delete_conv')

lemma map_of_filter_prefix:
  "map_of (filter (\<lambda>e. \<not> prefix q (fst e)) xs) k = (if prefix q k then None else map_of xs k)"
  by (induction xs) auto

lemma lookup_rmtree:
  "lookup (rmtree fs q) p = (if p = [] then Some Dir else if prefix q p then None else lookup fs p)"
  by (simp add: lookup_def rmtree_def map_of_filter_prefix)

lemma mkdirs_keeps:
  "mkdirs fs pre cs = Inr fs' \<Longrightarrow> lookup fs p \<noteq> None \<Longrightarrow> lookup fs' p = lookup fs p"
proof (induction cs arbitrary: fs pre)
  case Nil then show ?case by simp
next
  case (Cons c cs)
  show ?case
  proof (cases "lookup fs (pre @ [c])")
    case None
    with Cons.prems have m: "mkdirs (AList.update (pre @ [c]) Dir fs) (pre @ [c]) cs = Inr fs'"
      by (simp add: Let_def)
    have ne: "p \<noteq> pre @ [c]" using None Cons.prems(2) by auto
    have "lookup (AList.update (pre @ [c]) Dir fs) p = lookup fs p"
      using ne by (simp add: lookup_update)
    with Cons.IH[OF m] Cons.prems(2) show ?thesis by simp
  next
    case (Some n)
    with Cons.prems show ?thesis
      by (cases n) (auto simp: Let_def dest: Cons.IH)
  qed
qed

lemma mkdirs_only_dirs:
  "mkdirs fs pre cs = Inr fs' \<Longrightarrow> lookup fs' p = lookup fs p \<or> (lookup fs p = None \<and> lookup fs' p = Some Dir)"
proof (induction cs arbitrary: fs pre)
  case Nil then show ?case by simp
next
  case (Cons c cs)
  show ?case
  proof (cases "lookup fs (pre @ [c])")
    case None
    with Cons.prems have m: "mkdirs (AList.update (pre @ [c]) Dir fs) (pre @ [c]) cs = Inr fs'"
      by (simp add: Let_def)
    from Cons.IH[OF m] None show ?thesis
      by (auto simp: lookup_update split: if_splits)
  next
    case (Some n)
    with Cons.prems show ?thesis
      by (cases n) (auto simp: Let_def dest: Cons.IH)
  qed
qed

lemma mkdirs_prefixes:
  "mkdirs fs pre cs = Inr fs' \<Longrightarrow> (\<forall>q. prefix q pre \<longrightarrow> is_dir fs q) \<Longrightarrow>
     prefix q (pre @ cs) \<Longrightarrow> is_dir fs' q"
proof (induction cs arbitrary: fs pre)
  case Nil then show ?case by simp
next
  case (Cons c cs)
  show ?case
  proof (cases "lookup fs (pre @ [c])")
    case None
    with Cons.prems have m: "mkdirs (AList.update (pre @ [c]) Dir fs) (pre @ [c]) cs = Inr fs'"
      by (simp add: Let_def)
    have "\<forall>q. prefix q (pre @ [c]) \<longrightarrow> is_dir (AList.update (pre @ [c]) Dir fs) q"
      using Cons.prems(2) by (auto simp: is_dir_def lookup_update)
    from Cons.IH[OF m this] Cons.prems(3) show ?thesis by simp
  next
    case (Some n)
    show ?thesis
    proof (cases n)
      case Dir
      with Some Cons.prems have m: "mkdirs fs (pre @ [c]) cs = Inr fs'" by (simp add: Let_def)
      have "\<forall>q. prefix q (pre @ [c]) \<longrightarrow> is_dir fs q"
        using Cons.prems(2) Some Dir by (auto simp: is_dir_def)
      from Cons.IH[OF m this] Cons.prems(3) show ?thesis by simp
    next
      case (File x)
      with Some Cons.prems show ?thesis by (simp add: Let_def)
    qed
  qed
qed

lemma mkdir_p_prefixes: "mkdir_p fs p = Inr fs' \<Longrightarrow> prefix q p \<Longrightarrow> is_dir fs' q"
  using mkdirs_prefixes[of fs "[]" p fs' q] by (simp add: mkdir_p_def is_dir_def lookup_def)

lemma mkdirs_noop:
  "(\<forall>q. prefix q (pre @ cs) \<longrightarrow> is_dir fs q) \<Longrightarrow> mkdirs fs pre cs = Inr fs"
proof (induction cs arbitrary: pre)
  case Nil then show ?case by simp
next
  case (Cons c cs)
  have "is_dir fs (pre @ [c])" using Cons.prems by simp
  moreover have "mkdirs fs (pre @ [c]) cs = Inr fs" using Cons.prems by (intro Cons.IH) simp
  ultimately show ?case by (simp add: is_dir_def Let_def)
qed

lemma mkdir_p_noop: "(\<forall>q. prefix q p \<longrightarrow> is_dir fs q) \<Longrightarrow> mkdir_p fs p = Inr fs"
  using mkdirs_noop[of "[]" p fs] by (simp add: mkdir_p_def)

lemma write_file_lookup:
  assumes "write_file fs p c = Inr fs'"
  shows "lookup fs' q = (if q = p then Some (File c) else lookup fs q)"
proof -
  from assms have nd: "\<not> is_dir fs p" and fs': "fs' = AList.update p (File c) fs"
    by (auto simp: write_file_def split: if_splits option.splits node.splits)
  have "p \<noteq> []" using nd by (auto simp: is_dir_def)
  then show ?thesis by (auto simp: fs' lookup_update)
qed

lemma write_file_not_dir: "write_file fs p c = Inr fs' \<Longrightarrow> \<not> is_dir fs p"
  by (auto simp: write_file_def split: if_splits)

lemma same_kind_refl: "same_kind fs fs" by (simp add: same_kind_def)

lemma same_kind_trans: "same_kind a b \<Longrightarrow> same_kind b c \<Longrightarrow> same_kind a c"
  by (simp add: same_kind_def)

lemma mkdir_p_same_kind: "mkdir_p fs p = Inr fs' \<Longrightarrow> same_kind fs fs'"
  unfolding same_kind_def mkdir_p_def
  using mkdirs_keeps[of fs "[]" p fs']
  by (auto simp: is_file_def is_dir_def split: option.splits node.splits)

lemma write_file_same_kind: "write_file fs p c = Inr fs' \<Longrightarrow> same_kind fs fs'"
  unfolding same_kind_def
  using write_file_lookup[of fs p c fs'] write_file_not_dir[of fs p c fs']
  by (auto simp: is_file_def is_dir_def split: option.splits node.splits)

lemma extract_member_same_kind: "extract_member fs base m = Inr fs' \<Longrightarrow> same_kind fs fs'"
  by (auto simp: extract_member_def Let_def split: if_splits sum.splits
      intro: mkdir_p_same_kind write_file_same_kind same_kind_trans)

lemma extractall_same_kind: "extractall fs base ms = (fs', r) \<Longrightarrow> same_kind fs fs'"
proof (induction ms arbitrary: fs)
  case Nil then show ?case by (simp add: same_kind_refl)
next
  case (Cons m ms)
  then show ?case
    by (auto split: sum.splits intro: same_kind_refl
        dest!: extract_member_same_kind elim: same_kind_trans)
qed

lemma rglob_below: "j \<in> set (rglob fs base P) \<Longrightarrow> strict_prefix base j"
  by (auto simp: rglob_def)

lemma below_trans: "strict_prefix base j \<Longrightarrow> prefix j p \<Longrightarrow> strict_prefix base p"
  by (auto simp: strict_prefix_def prefix_def)

lemma fold_rmtree_outside:
  "(\<forall>j \<in> set js. strict_prefix base j) \<Longrightarrow> \<not> strict_prefix base p \<Longrightarrow>
     lookup (fold (\<lambda>junk f. if is_dir f junk then rmtree f junk else f) js fs) p = lookup fs p"
proof (induction js arbitrary: fs)
  case Nil then show ?case by simp
next
  case (Cons j js)
  have "\<not> prefix j p" using Cons.prems below_trans[of base j p] by auto
  then have "lookup (if is_dir fs j then rmtree fs j else fs) p = lookup fs p"
    by (simp add: lookup_rmtree)
  with Cons show ?case by simp
qed

lemma fold_rmtree_shrinks:
  "lookup (fold (\<lambda>junk f. if is_dir f junk then rmtree f junk else f) js fs) p = None
   \<or> lookup (fold (\<lambda>junk f. if is_dir f junk then rmtree f junk else f) js fs) p = lookup fs p"
proof (induction js arbitrary: fs)
  case Nil then show ?case by simp
next
  case (Cons j js)
  have "lookup (if is_dir fs j then rmtree fs j else fs) p = None
      \<or> lookup (if is_dir fs j then rmtree fs j else fs) p = lookup fs p"
    by (simp add: lookup_rmtree)
  with Cons.IH[of "if is_dir fs j then rmtree fs j else fs"] show ?case by auto
qed

lemma unlink_all_outside:
  "unlink_all fs ps = (fs', r) \<Longrightarrow> (\<forall>j \<in> set ps. strict_prefix base j) \<Longrightarrow>
     \<not> strict_prefix base p \<Longrightarrow> lookup fs' p = lookup fs p"
proof (induction ps arbitrary: fs)
  case Nil then show ?case by simp
next
  case (Cons j js)
  have ne: "p \<noteq> j" using Cons.prems by auto
  show ?case
  proof (cases "is_dir fs j")
    case True with Cons.prems show ?thesis by (simp add: unlink_missing_ok_def)
  next
    case False
    with Cons.prems have u: "unlink_all (AList.delete j fs) js = (fs', r)"
      by (simp add: unlink_missing_ok_def)
    from Cons.IH[OF u] Cons.prems ne show ?thesis by (simp add: lookup_delete)
  qed
qed

lemma unlink_all_shrinks:
  "unlink_all fs ps = (fs', r) \<Longrightarrow> lookup fs' p = None \<or> lookup fs' p = lookup fs p"
proof (induction ps arbitrary: fs)
  case Nil then show ?case by simp
next
  case (Cons j js)
  show ?case
  proof (cases "is_dir fs j")
    case True with Cons.prems show ?thesis by (simp add: unlink_missing_ok_def)
  next
    case False
    with Cons.prems have u: "unlink_all (AList.delete j fs) js = (fs', r)"
      by (simp add: unlink_missing_ok_def)
    from Cons.IH[OF u] show ?thesis by (auto simp: lookup_delete split: if_splits)
  qed
qed

lemma clean_junk_outside:
  assumes c: "clean_junk fs base = (fs', r)" and out: "\<not> strict_prefix base p"
  shows "lookup fs' p = lookup fs p"
proof -
  define fs1 where "fs1 = fold (\<lambda>junk f. if is_dir f junk then rmtree f junk else f)
                  (rglob fs base (\<lambda>n. n = ''__MACOSX'')) fs"
  have u: "unlink_all fs1 (rglob fs1 base (\<lambda>n. endswith n ''.DS_Store'')) = (fs', r)"
    using c by (simp add: clean_junk_def fs1_def Let_def)
  have 1: "lookup fs1 p = lookup fs p"
    unfolding fs1_def by (rule fold_rmtree_outside[OF _ out]) (simp add: rglob_below)
  have 2: "lookup fs' p = lookup fs1 p"
    by (rule unlink_all_outside[OF u _ out]) (simp add: rglob_below)
  from 1 2 show ?thesis by simp
qed

lemma clean_junk_shrinks:
  assumes c: "clean_junk fs base = (fs', r)"
  shows "lookup fs' p = None \<or> lookup fs' p = lookup fs p"
proof -
  define fs1 where "fs1 = fold (\<lambda>junk f. if is_dir f junk then rmtree f junk else f)
                  (rglob fs base (\<lambda>n. n = ''__MACOSX'')) fs"
  have u: "unlink_all fs1 (rglob fs1 base (\<lambda>n. endswith n ''.DS_Store'')) = (fs', r)"
    using c by (simp add: clean_junk_def fs1_def Let_def)
  have 1: "lookup fs1 p = None \<or> lookup fs1 p = lookup fs p"
    unfolding fs1_def by (rule fold_rmtree_shrinks)
  have 2: "lookup fs' p = None \<or> lookup fs' p = lookup fs1 p"
    by (rule unlink_all_shrinks[OF u])
  from 1 2 show ?thesis by auto
qed

lemma gamelist_add_frame:
  assumes res: "gamelist_add gi gl w = (w', r)"
      and dirs: "\<forall>q. prefix q (parent gl) \<longrightarrow> is_dir (files w) q"
  shows "lookup (files w') p = lookup (files w) p \<or> (p = gl \<and> is_file (files w') p)"
proof (cases "parse_xml (files w) gi")
  case (Inl e)
  with res show ?thesis by (auto simp: gamelist_add_def print_def split: if_splits)
next
  case src: (Inr src)
  obtain w1 lr where l: "load_gamelist gl w = (w1, lr)" by (cases "load_gamelist gl w")
  have f1: "files w1 = files w" by (rule load_gamelist_files[OF l])
  show ?thesis
  proof (cases lr)
    case (Inl e)
    with res src l f1 show ?thesis by (simp add: gamelist_add_def)
  next
    case root: (Inr root)
    have mk: "mkdir_p (files w1) (parent gl) = Inr (files w)"
      using mkdir_p_noop[OF dirs] f1 by simp
    from res show ?thesis
      unfolding gamelist_add_unfold[OF src l[unfolded root]] Let_def mk
      by (auto simp: print_def f1 is_file_def dest!: write_file_lookup[where q = p]
          split: if_splits sum.splits)
  qed
qed

lemma is_file_not_dir: "is_file fs p \<Longrightarrow> \<not> is_dir fs p"
  by (auto simp: is_file_def is_dir_def split: option.splits node.splits)

lemma parent_snoc [simp]: "parent (p @ [c]) = p"
  by (simp add: parent_def)

lemma install_try_not_dir:
  assumes zf: "is_file (files w) zp" and res: "install_try unzip zp z w = (w1, r)"
  shows "\<not> is_dir (files w1) zp"
proof (cases "open_zip unzip (files w) zp")
  case (Inl e)
  with res zf show ?thesis by (auto simp: install_try_def dest: is_file_not_dir)
next
  case zip: (Inr ms)
  show ?thesis
  proof (cases "List.find (\<lambda>f. endswith f ''port.json'' \<or> endswith f ''bottle.json'') (map fst ms)")
    case None
    with res zf zip show ?thesis
      by (auto simp: install_try_def print_def dest: is_file_not_dir)
  next
    case desc: (Some target_json)
    define base where "base = (if endswith target_json ''port.json'' then PORTS_DIR else WINDOWS_DIR)"
    show ?thesis
    proof (cases "mkdir_p (files w) base")
      case (Inl e)
      with res zf zip desc show ?thesis
        by (auto simp: install_try_def Let_def base_def dest: is_file_not_dir)
    next
      case mk: (Inr fs1)
      obtain fs2 xr where ex: "extractall fs1 base ms = (fs2, xr)" by (cases "extractall fs1 base ms")
      have k2: "same_kind (files w) fs2"
        using mkdir_p_same_kind[OF mk] extractall_same_kind[OF ex] by (rule same_kind_trans)
      have z2: "is_file fs2 zp" using k2 zf by (simp add: same_kind_def)
      have d2: "\<forall>q. prefix q base \<longrightarrow> is_dir fs2 q"
        using mkdir_p_prefixes[OF mk] extractall_same_kind[OF ex] by (simp add: same_kind_def)
      show ?thesis
      proof (cases xr)
        case (Some e)
        with res zip desc mk ex z2 show ?thesis
          by (auto simp: install_try_def Let_def base_def[symmetric] print_def dest: is_file_not_dir)
      next
        case xnone: None
        obtain fs3 cr where cl: "clean_junk fs2 base = (fs3, cr)" by (cases "clean_junk fs2 base")
        have z3: "\<not> is_dir fs3 zp"
          using clean_junk_shrinks[OF cl, of zp] is_file_not_dir[OF z2] by (auto simp: is_dir_def)
        have d3: "\<forall>q. prefix q base \<longrightarrow> is_dir fs3 q"
        proof (intro allI impI)
          fix q assume q: "prefix q base"
          then have "\<not> strict_prefix base q" by (auto simp: strict_prefix_def)
          from clean_junk_outside[OF cl this] d2 q show "is_dir fs3 q" by (simp add: is_dir_def)
        qed
        show ?thesis
        proof (cases cr)
          case (Some e)
          with res zip desc mk ex xnone cl z3 show ?thesis
            by (auto simp: install_try_def Let_def base_def[symmetric] print_def)
        next
          case cnone: None
          show ?thesis
          proof (cases "List.find (\<lambda>f. endswith f ''gameinfo.xml'' \<and> is_file fs3 (pjoin base f)) (map fst ms)")
            case None
            with res zip desc mk ex xnone cl cnone z3 show ?thesis
              by (auto simp: install_try_def Let_def base_def[symmetric] print_def)
          next
            case gi: (Some f)
            define w3 where "w3 = print (GamelistFound (pjoin base f))
                (print (Extracting z base) (w\<lparr>files := fs1\<rparr>)\<lparr>files := fs3\<rparr>)"
            obtain w4 gr where ga: "gamelist_add (pjoin base f) (base @ [''gamelist.xml'']) w3 = (w4, gr)"
              by (cases "gamelist_add (pjoin base f) (base @ [''gamelist.xml'']) w3")
            have f3: "files w3 = fs3" by (simp add: w3_def print_def)
            have "\<forall>q. prefix q (parent (base @ [''gamelist.xml''])) \<longrightarrow> is_dir (files w3) q"
              using d3 by (simp add: f3)
            from gamelist_add_frame[OF ga this, of zp] z3
            have z4: "\<not> is_dir (files w4) zp"
              by (auto simp: f3 is_dir_def dest: is_file_not_dir)
            have w1: "w1 = w4"
              using res zip desc mk ex xnone cl cnone gi ga
              by (auto simp: install_try_def Let_def base_def[symmetric] w3_def[symmetric]
                  split: sum.splits)
            with z4 show ?thesis by simp
          qed
        qed
      qed
    qed
  qed
qed

lemma install_zip_returns:
  "\<exists>w' rc. install_zip unzip d z w = (w', Inr rc) \<and> (rc = 0 \<or> rc = 255)"
proof (cases "is_file (files w) (pjoin d z)")
  case False
  then show ?thesis by (simp add: install_zip_def)
next
  case True
  obtain w1 r where t: "install_try unzip (pjoin d z) z (print (Installing z) w) = (w1, r)"
    by (cases "install_try unzip (pjoin d z) z (print (Installing z) w)")
  have "is_file (files (print (Installing z) w)) (pjoin d z)" using True by (simp add: print_def)
  from install_try_not_dir[OF this t] have nd: "\<not> is_dir (files w1) (pjoin d z)" .
  have rc: "\<And>rc. r = Inr (Some rc) \<Longrightarrow> rc = 255"
    using t by (auto simp: install_try_def Let_def split: sum.splits option.splits prod.splits)
  show ?thesis
    using True t nd rc
    by (cases r) (auto simp: install_zip_def Let_def unlink_missing_ok_def split: option.splits)
qed

lemma install_try_early:
  "install_try unzip zp z w = (w1, Inr (Some rc)) \<Longrightarrow> rc = 255 \<and> files w1 = files w"
  by (auto simp: install_try_def Let_def print_def
      split: sum.splits option.splits prod.splits)

lemma install_try_open_fails:
  "open_zip unzip (files w) zp = Inl e \<Longrightarrow> install_try unzip zp z w = (w, Inl e)"
  by (simp add: install_try_def)

lemma install_try_no_descriptor:
  "open_zip unzip (files w) zp = Inr zf \<Longrightarrow>
   \<not> (\<exists>f \<in> set (map fst zf). endswith f ''port.json'' \<or> endswith f ''bottle.json'') \<Longrightarrow>
   install_try unzip zp z w = (print (ErrNoDescriptor z) w, Inr (Some 255))"
  by (simp add: install_try_def find_None_iff[THEN iffD2])

lemma install_zip_cases:
  assumes zf: "is_file (files w) (pjoin d z)"
      and t: "install_try unzip (pjoin d z) z (print (Installing z) w) = (w1, r1)"
  shows "install_zip unzip d z w =
     (case r1 of
        Inl e \<Rightarrow> (print (if e = BadZipFile then ErrBadZip z else ErrInstallFailed z e) w1, Inr 255)
      | Inr (Some rc) \<Rightarrow> (w1, Inr 255)
      | Inr None \<Rightarrow> (print (OkInstalled z) (w1\<lparr>files := AList.delete (pjoin d z) (files w1)\<rparr>),
                     Inr 0))"
proof -
  have "is_file (files (print (Installing z) w)) (pjoin d z)" using zf by (simp add: print_def)
  from install_try_not_dir[OF this t] have nd: "\<not> is_dir (files w1) (pjoin d z)" .
  show ?thesis
    using zf t nd install_try_early[of unzip "pjoin d z" z "print (Installing z) w" w1]
    by (auto simp: install_zip_def Let_def unlink_missing_ok_def
        split: sum.splits option.splits)
qed

lemma lookup_delete_same: "p \<noteq> [] \<Longrightarrow> \<not> path_exists (AList.delete p fs) p"
  by (simp add: path_exists_def lookup_delete)

lemma is_file_nonempty: "is_file fs p \<Longrightarrow> p \<noteq> []"
  by (auto simp: is_file_def)

text \<open>
  C5. \<^verbatim>\<open>install_zip\<close> always returns 0 or 255. When the archive is missing, cannot be
  opened as a container, or has no member whose name ends in \<^verbatim>\<open>port.json\<close> or
  \<^verbatim>\<open>bottle.json\<close>, the status is 255 and the file system is unchanged, so the archive
  is still in place. The status is 0 exactly when the archive is a file and the
  \<^verbatim>\<open>try\<close> block runs to its end without an exception or an early return; then the
  archive has been unlinked and no longer exists. With status 255 no unlink takes place:
  the file system is the one the block left.
\<close>

theorem install_zip_status:
  assumes res: "install_zip unzip d z w = (w', r)"
  shows "(r = Inr 0 \<or> r = Inr 255)
    \<and> (\<not> is_file (files w) (pjoin d z)
        \<or> (\<exists>e. open_zip unzip (files w) (pjoin d z) = Inl e)
        \<or> (\<exists>zf. open_zip unzip (files w) (pjoin d z) = Inr zf
              \<and> \<not> (\<exists>f \<in> set (map fst zf). endswith f ''port.json'' \<or> endswith f ''bottle.json''))
        \<longrightarrow> r = Inr 255 \<and> files w' = files w)
    \<and> (r = Inr 0 \<longleftrightarrow>
          is_file (files w) (pjoin d z)
          \<and> (\<exists>w1. install_try unzip (pjoin d z) z (print (Installing z) w) = (w1, Inr None)))
    \<and> (r = Inr 0 \<longrightarrow>
          \<not> path_exists (files w') (pjoin d z)
          \<and> files w' = AList.delete (pjoin d z)
                (files (fst (install_try unzip (pjoin d z) z (print (Installing z) w)))))
    \<and> (r = Inr 255 \<and> is_file (files w) (pjoin d z) \<longrightarrow>
          files w' = files (fst (install_try unzip (pjoin d z) z (print (Installing z) w))))"
proof (cases "is_file (files w) (pjoin d z)")
  case False
  with res show ?thesis by (auto simp: install_zip_def print_def)
next
  case True
  let ?w0 = "print (Installing z) w"
  obtain w1 r1 where t: "install_try unzip (pjoin d z) z ?w0 = (w1, r1)"
    by (cases "install_try unzip (pjoin d z) z ?w0")
  note c = install_zip_cases[OF True t]
  have f0: "files ?w0 = files w" by (simp add: print_def)
  have ne: "pjoin d z \<noteq> []" using True by (rule is_file_nonempty)
  have a: "r = Inr 0 \<or> r = Inr 255"
    using res c by (auto split: sum.splits option.splits)
  have b: "\<And>e. open_zip unzip (files w) (pjoin d z) = Inl e \<Longrightarrow> r = Inr 255 \<and> files w' = files w"
    using res c t install_try_open_fails[of unzip ?w0 "pjoin d z" _ z]
    by (auto simp: f0 print_def)
  have b': "\<And>zf. open_zip unzip (files w) (pjoin d z) = Inr zf \<Longrightarrow>
      \<not> (\<exists>f \<in> set (map fst zf). endswith f ''port.json'' \<or> endswith f ''bottle.json'') \<Longrightarrow>
      r = Inr 255 \<and> files w' = files w"
    using res c t install_try_no_descriptor[of unzip ?w0 "pjoin d z" _ z]
    by (auto simp: f0 print_def)
  have e: "r = Inr 0 \<longleftrightarrow> r1 = Inr None"
    using res c by (auto split: sum.splits option.splits)
  have f: "r = Inr 0 \<Longrightarrow> \<not> path_exists (files w') (pjoin d z)
       \<and> files w' = AList.delete (pjoin d z) (files w1)"
    using res c e ne by (auto simp: print_def lookup_delete_same)
  have g: "r = Inr 255 \<Longrightarrow> files w' = files w1"
    using res c by (auto simp: print_def split: sum.splits option.splits)
  show ?thesis
    using True a b b' e f g by (auto simp: t)
qed


theorem install_zip_status_witness:
  "snd (install_zip ex_unzip [''stage''] ''a.zip'' ex_stage) = Inr 0
   \<and> \<not> path_exists (files (fst (install_zip ex_unzip [''stage''] ''a.zip'' ex_stage)))
         [''stage'', ''a.zip'']
   \<and> open_zip ex_unzip (files ex_stage) [''stage'', ''b.zip''] = Inr [(''readme.txt'', Raw ''hello'')]
   \<and> snd (install_zip ex_unzip [''stage''] ''b.zip'' ex_stage) = Inr 255
   \<and> files (fst (install_zip ex_unzip [''stage''] ''b.zip'' ex_stage)) = files ex_stage
   \<and> open_zip ex_unzip (files ex_stage) [''stage'', ''c.zip''] = Inl BadZipFile
   \<and> snd (install_zip ex_unzip [''stage''] ''c.zip'' ex_stage) = Inr 255
   \<and> files (fst (install_zip ex_unzip [''stage''] ''c.zip'' ex_stage)) = files ex_stage"
proof -
  let ?a = "install_zip ex_unzip [''stage''] ''a.zip'' ex_stage"
  let ?b = "install_zip ex_unzip [''stage''] ''b.zip'' ex_stage"
  let ?c = "install_zip ex_unzip [''stage''] ''c.zip'' ex_stage"
  have pa: "pjoin [''stage''] ''a.zip'' = [''stage'', ''a.zip'']" by code_simp
  have pb: "pjoin [''stage''] ''b.zip'' = [''stage'', ''b.zip'']" by code_simp
  have pc: "pjoin [''stage''] ''c.zip'' = [''stage'', ''c.zip'']" by code_simp
  have ra: "snd ?a = Inr 0" by code_simp
  have ob: "open_zip ex_unzip (files ex_stage) [''stage'', ''b.zip''] = Inr [(''readme.txt'', Raw ''hello'')]"
    by code_simp
  have nb: "\<not> (\<exists>f \<in> set (map fst [(''readme.txt'', Raw ''hello'')]).
      endswith f ''port.json'' \<or> endswith f ''bottle.json'')"
    by code_simp
  have oc: "open_zip ex_unzip (files ex_stage) [''stage'', ''c.zip''] = Inl BadZipFile"
    by code_simp
  have sa: "?a = (fst ?a, snd ?a)" and sb: "?b = (fst ?b, snd ?b)"
    and sc: "?c = (fst ?c, snd ?c)" by simp_all
  have a: "\<not> path_exists (files (fst ?a)) [''stage'', ''a.zip'']"
    using install_zip_status[OF sa] ra unfolding pa by blast
  have b: "snd ?b = Inr 255 \<and> files (fst ?b) = files ex_stage"
    using install_zip_status[OF sb] ob nb unfolding pb by blast
  have c: "snd ?c = Inr 255 \<and> files (fst ?c) = files ex_stage"
    using install_zip_status[OF sc] oc unfolding pc by blast
  from ra a ob b oc c show ?thesis by (intro conjI) simp_all
qed





section \<open>Fingerprint ledger\<close>







lemma manifest_paths_differ: "MANIFEST_TMP b \<noteq> MANIFEST_PATH b"
  by (simp add: MANIFEST_TMP_def MANIFEST_PATH_def)

lemma write_file_nonempty: "write_file fs p c = Inr fs' \<Longrightarrow> p \<noteq> []"
  by (auto simp: write_file_def is_dir_def split: if_splits)

lemma write_manifest_fails:
  assumes ne: "tmp \<noteq> target" and wm: "write_manifest fault fs tmp target data = (sts, Some e)"
  shows "(\<forall>s \<in> set (fs # sts). lookup s target = lookup fs target)"
proof (cases "write_file fs tmp (Raw [])")
  case (Inl x)
  with wm show ?thesis by (auto simp: write_manifest_def split: if_splits)
next
  case (Inr fs1)
  have 1: "lookup fs1 target = lookup fs target"
    using write_file_lookup[OF Inr, of target] ne by simp
  have 2: "\<And>c. lookup (AList.update tmp c fs1) target = lookup fs target"
    using 1 ne by (simp add: lookup_update)
  from wm Inr show ?thesis
    by (auto simp: write_manifest_def Let_def 1 2
        split: if_splits ledger_fault.splits sum.splits)
qed

lemma write_manifest_succeeds:
  assumes ne: "tmp \<noteq> target" and wm: "write_manifest fault fs tmp target data = (sts, None)"
  shows "fault = NoFault \<and>
    (\<exists>fs1 fs2 fs3. sts = [fs1, fs2, fs3]
       \<and> lookup fs1 target = lookup fs target
       \<and> lookup fs2 target = lookup fs target
       \<and> lookup fs2 tmp = Some (File (Json data))
       \<and> os_replace fs2 tmp target = Inr fs3
       \<and> lookup fs3 target = Some (File (Json data))
       \<and> lookup fs3 tmp = None)"
proof -
  from wm obtain fs1 where w1: "write_file fs tmp (Raw []) = Inr fs1"
    by (cases "write_file fs tmp (Raw [])") (auto simp: write_manifest_def split: if_splits)
  let ?fs2 = "AList.update tmp (File (Json data)) fs1"
  from wm w1 have nf: "fault = NoFault"
    by (cases fault) (auto simp: write_manifest_def Let_def split: sum.splits)
  from wm w1 nf obtain fs3 where r: "os_replace ?fs2 tmp target = Inr fs3"
    and sts: "sts = [fs1, ?fs2, fs3]"
    by (cases "os_replace ?fs2 tmp target") (auto simp: write_manifest_def Let_def)
  have t0: "tmp \<noteq> []" using w1 by (rule write_file_nonempty)
  have 1: "lookup fs1 target = lookup fs target"
    using write_file_lookup[OF w1, of target] ne by simp
  have 2: "lookup ?fs2 target = lookup fs target"
    using 1 ne by (simp add: lookup_update)
  have 3: "lookup ?fs2 tmp = Some (File (Json data))"
    using t0 by (simp add: lookup_update)
  from r 3 have nd: "\<not> is_dir ?fs2 target"
    and fs3: "fs3 = AList.delete tmp (AList.update target (File (Json data)) ?fs2)"
    by (auto simp: os_replace_def split: if_splits)
  have g0: "target \<noteq> []" using nd by (auto simp: is_dir_def)
  have 4: "lookup fs3 target = Some (File (Json data))"
    using ne g0 by (simp add: fs3 lookup_delete lookup_update)
  have 5: "lookup fs3 tmp = None"
    using t0 by (simp add: fs3 lookup_delete)
  from nf sts 1 2 3 r 4 5 show ?thesis by blast
qed

lemma unlink_suppressed_lookup:
  "lookup (unlink_suppressed fs p) q = (if q = p \<and> is_file fs p then None else lookup fs q)"
  by (auto simp: unlink_suppressed_def lookup_delete is_file_def)

lemma unlink_suppressed_not_file: "\<not> is_file (unlink_suppressed fs p) p"
  by (auto simp: unlink_suppressed_lookup is_file_def split: option.splits node.splits)

lemma fault_fails:
  "fault \<noteq> NoFault \<Longrightarrow> \<exists>e. snd (write_manifest fault fs tmp target data) = Some e"
  by (cases fault) (auto simp: write_manifest_def Let_def split: sum.splits)

text \<open>
  C2. Whenever the in-memory update yields the document \<open>data\<close>,
  \<^verbatim>\<open>_update_manifest\<close> returns without raising, and in every file system an observer
  can see during the call the ledger path holds either what it held before or the
  complete new document. When the write sequence raises (as it does under every injected
  fault), the exception is printed, the ledger path holds what it held before and the
  temporary path is not a file. When it does not raise, the states are: the initial one,
  the temporary file opened, the temporary file holding the complete document, and the
  result of the one \<^verbatim>\<open>os.replace\<close> step, after which the ledger holds the new document
  and the temporary file is gone.
\<close>

theorem update_manifest_atomic:
  assumes rec: "record_port (load_manifest (files w) (MANIFEST_PATH b)) p kind = Inr data"
      and res: "update_manifest b fault p kind w = (w', r)"
  shows "r = Inr ()
    \<and> files w' = last (manifest_states fault (files w) (MANIFEST_TMP b) (MANIFEST_PATH b) data)
    \<and> (\<forall>s \<in> set (manifest_states fault (files w) (MANIFEST_TMP b) (MANIFEST_PATH b) data).
          lookup s (MANIFEST_PATH b) = lookup (files w) (MANIFEST_PATH b)
          \<or> lookup s (MANIFEST_PATH b) = Some (File (Json data)))
    \<and> (\<forall>e. snd (write_manifest fault (files w) (MANIFEST_TMP b) (MANIFEST_PATH b) data) = Some e
          \<longrightarrow> out w' = out w @ [ErrManifestUpdate e]
            \<and> lookup (files w') (MANIFEST_PATH b) = lookup (files w) (MANIFEST_PATH b)
            \<and> \<not> is_file (files w') (MANIFEST_TMP b))
    \<and> (snd (write_manifest fault (files w) (MANIFEST_TMP b) (MANIFEST_PATH b) data) = None
          \<longrightarrow> out w' = out w
            \<and> (\<exists>fs1 fs2. manifest_states fault (files w) (MANIFEST_TMP b) (MANIFEST_PATH b) data
                   = [files w, fs1, fs2, files w']
                 \<and> lookup fs2 (MANIFEST_TMP b) = Some (File (Json data))
                 \<and> os_replace fs2 (MANIFEST_TMP b) (MANIFEST_PATH b) = Inr (files w'))
            \<and> lookup (files w') (MANIFEST_PATH b) = Some (File (Json data))
            \<and> lookup (files w') (MANIFEST_TMP b) = None)
    \<and> (fault \<noteq> NoFault \<longrightarrow>
          (\<exists>e. snd (write_manifest fault (files w) (MANIFEST_TMP b) (MANIFEST_PATH b) data) = Some e))"
proof -
  let ?tmp = "MANIFEST_TMP b" and ?mp = "MANIFEST_PATH b"
  obtain sts wr where wm: "write_manifest fault (files w) ?tmp ?mp data = (sts, wr)"
    by (cases "write_manifest fault (files w) ?tmp ?mp data")
  note ne = manifest_paths_differ[of b]
  show ?thesis
  proof (cases wr)
    case None
    from write_manifest_succeeds[OF ne wm[unfolded None]]
    obtain fs1 fs2 fs3 where nf: "fault = NoFault" and sts: "sts = [fs1, fs2, fs3]"
      and l1: "lookup fs1 ?mp = lookup (files w) ?mp"
      and l2: "lookup fs2 ?mp = lookup (files w) ?mp"
      and l2t: "lookup fs2 ?tmp = Some (File (Json data))"
      and rp: "os_replace fs2 ?tmp ?mp = Inr fs3"
      and l3: "lookup fs3 ?mp = Some (File (Json data))"
      and l3t: "lookup fs3 ?tmp = None"
      by blast
    have w': "w' = w\<lparr>files := fs3\<rparr>" and r: "r = Inr ()"
      using res rec wm None sts by (auto simp: update_manifest_def)
    have ms: "manifest_states fault (files w) ?tmp ?mp data = [files w, fs1, fs2, fs3]"
      using wm None sts by (simp add: manifest_states_def)
    show ?thesis
      using r w' ms l1 l2 l2t rp l3 l3t nf wm None by simp
  next
    case (Some e)
    let ?end = "unlink_suppressed (last (files w # sts)) ?tmp"
    have same: "\<forall>s \<in> set (files w # sts). lookup s ?mp = lookup (files w) ?mp"
      by (rule write_manifest_fails[OF ne wm[unfolded Some]])
    have lastin: "last (files w # sts) \<in> set (files w # sts)" by (rule last_in_set) simp
    have le: "lookup ?end ?mp = lookup (files w) ?mp"
      using same lastin ne by (simp add: unlink_suppressed_lookup del: last.simps set_simps)
    have w': "w' = print (ErrManifestUpdate e) w\<lparr>files := ?end\<rparr>" and r: "r = Inr ()"
      using res rec wm Some by (auto simp: update_manifest_def)
    have ms: "manifest_states fault (files w) ?tmp ?mp data = files w # sts @ [?end]"
      using wm Some by (simp add: manifest_states_def)
    have all: "\<forall>s \<in> set (files w # sts @ [?end]). lookup s ?mp = lookup (files w) ?mp"
      using same le by auto
    have lst: "last (files w # sts @ [?end]) = ?end"
      by (simp only: append_Cons[symmetric] last_snoc)
    show ?thesis
      using r all wm Some le unlink_suppressed_not_file[of "last (files w # sts)" ?tmp]
      by (simp add: w' ms lst print_def del: last.simps)
  qed
qed




theorem update_manifest_atomic_witness:
  "(\<exists>data. record_port (load_manifest (files ex_ledger_world) (MANIFEST_PATH [''app'']))
              ex_port ''port'' = Inr data
      \<and> lookup (files (fst (update_manifest [''app''] NoFault ex_port ''port'' ex_ledger_world)))
          (MANIFEST_PATH [''app'']) = Some (File (Json data))
      \<and> lookup (files (fst (update_manifest [''app''] NoFault ex_port ''port'' ex_ledger_world)))
          (MANIFEST_TMP [''app'']) = None)
   \<and> snd (update_manifest [''app''] (WriteFails ''{'') ex_port ''port'' ex_ledger_world) = Inr ()
   \<and> out (fst (update_manifest [''app''] (WriteFails ''{'') ex_port ''port'' ex_ledger_world))
       = [ErrManifestUpdate IOFault]
   \<and> lookup (files (fst (update_manifest [''app''] (WriteFails ''{'') ex_port ''port'' ex_ledger_world)))
       (MANIFEST_PATH [''app'']) = Some (File (Json ex_ledger))
   \<and> \<not> is_file (files (fst (update_manifest [''app''] (WriteFails ''{'') ex_port ''port'' ex_ledger_world)))
       (MANIFEST_TMP [''app''])"
proof -
  let ?mp = "MANIFEST_PATH [''app'']" and ?tmp = "MANIFEST_TMP [''app'']"
  let ?ok = "update_manifest [''app''] NoFault ex_port ''port'' ex_ledger_world"
  let ?ko = "update_manifest [''app''] (WriteFails ''{'') ex_port ''port'' ex_ledger_world"
  let ?D = "JDict
       [(''ports'', JList [JDict [(''name'', JStr ''Doom'')], asdict ex_port]),
        (''bottles'', JList [JDict [(''name'', JStr ''celeste'')]])]"
  have rec: "record_port (load_manifest (files ex_ledger_world) ?mp) ex_port ''port'' = Inr ?D"
    by code_simp
  have ok: "?ok = (fst ?ok, snd ?ok)" and ko: "?ko = (fst ?ko, snd ?ko)" by simp_all
  have wok: "snd (write_manifest NoFault (files ex_ledger_world) ?tmp ?mp ?D) = None"
    by code_simp
  have wko: "snd (write_manifest (WriteFails ''{'') (files ex_ledger_world) ?tmp ?mp ?D)
      = Some IOFault"
    by code_simp
  have old: "lookup (files ex_ledger_world) ?mp = Some (File (Json ex_ledger))" by code_simp
  have o0: "out ex_ledger_world = []" by (simp add: ex_ledger_world_def)
  from update_manifest_atomic[OF rec ok] wok
  have a: "lookup (files (fst ?ok)) ?mp = Some (File (Json ?D))
      \<and> lookup (files (fst ?ok)) ?tmp = None" by blast
  from update_manifest_atomic[OF rec ko] wko
  have b: "snd ?ko = Inr ()
      \<and> out (fst ?ko) = out ex_ledger_world @ [ErrManifestUpdate IOFault]
      \<and> lookup (files (fst ?ko)) ?mp = lookup (files ex_ledger_world) ?mp
      \<and> \<not> is_file (files (fst ?ko)) ?tmp" by blast
  have ex: "\<exists>data. record_port (load_manifest (files ex_ledger_world) ?mp) ex_port ''port'' = Inr data
      \<and> lookup (files (fst ?ok)) ?mp = Some (File (Json data))
      \<and> lookup (files (fst ?ok)) ?tmp = None"
    using rec a by blast
  from ex b show ?thesis unfolding old o0 by simp
qed

section \<open>Image sync\<close>

lemma same_length_prefix: "length c = length c' \<Longrightarrow> prefix c c' \<Longrightarrow> c = c'"
  by (auto simp: prefix_def)



lemma child_length: "c \<noteq> [] \<Longrightarrow> parent c = d \<Longrightarrow> length c = Suc (length d)"
  by (cases c rule: rev_cases) (auto simp: parent_def)


lemma iterdir_props:
  "distinct (iterdir fs d)"
  "c \<in> set (iterdir fs d) \<longleftrightarrow> c \<noteq> [] \<and> parent c = d \<and> c \<in> fst ` set fs"
  by (auto simp: iterdir_def)

lemma listed_iff: "p \<noteq> [] \<Longrightarrow> p \<in> fst ` set fs \<longleftrightarrow> lookup fs p \<noteq> None"
  by (simp add: lookup_def map_of_eq_None_iff)

lemma iterdir_mem:
  "c \<in> set (iterdir fs d) \<longleftrightarrow> c \<noteq> [] \<and> parent c = d \<and> lookup fs c \<noteq> None"
  using listed_iff[of c fs] by (auto simp: iterdir_props(2))



lemma old_image_alt:
  "old_image fs d p \<longleftrightarrow>
     (\<exists>c. c \<noteq> [] \<and> parent c = d \<and> lookup fs c \<noteq> None
        \<and> c \<noteq> d @ [''images.json''] \<and> c \<noteq> d @ [''images.zip'']
        \<and> (p = c \<or> (is_dir fs c \<and> prefix c p)))"
  unfolding old_image_def Bex_def iterdir_mem by (simp add: conj_assoc)


lemma not_old_image_meta: "\<not> old_image fs d (d @ [''images.json''])"
proof
  assume "old_image fs d (d @ [''images.json''])"
  then obtain c where c: "c \<noteq> []" "parent c = d" "c \<noteq> d @ [''images.json'']"
    "d @ [''images.json''] = c \<or> prefix c (d @ [''images.json''])"
    unfolding old_image_alt by blast
  have "length c = length (d @ [''images.json''])" using child_length[OF c(1,2)] by simp
  with c(3,4) same_length_prefix show False by blast
qed












end
